theory Spec2Isabelle
  imports Complex_Main
begin

section \<open>Octree intersection: tile ranges, visibility and chunk materialisation\<close>

text \<open>
  The development embeds \<^verbatim>\<open>napari/layers/image/experimental/octree_intersection.py\<close>.
  Coordinates are \<^verbatim>\<open>float64\<close> values in the source; here they are exact reals, so
  the model covers the finite values and leaves rounding aside. A quotient whose divisor
  is zero is an infinity or a \<^verbatim>\<open>nan\<close> in numpy; the model has no such value and
  reports \<open>NonFinite\<close> instead. The range utility is given a second time with the
  \<^verbatim>\<open>float64\<close> rounding of its operations, to show where the rounding changes its result.
\<close>

subsection \<open>Level metadata\<close>

datatype py_error = IndexError | NonFinite

text \<open>
  Modelled from the spec: the classes \<^verbatim>\<open>OctreeLevel\<close>, \<^verbatim>\<open>OctreeLocation\<close>,
  \<^verbatim>\<open>OctreeChunkGeom\<close> and \<^verbatim>\<open>OctreeChunk\<close> are imported by the source from modules
  that are not part of it. The records below carry the fields that the intersection reads
  and the constructor arguments it passes, as the data model of the specification lists
  them.
\<close>

record image_config =
  base_shape :: "int \<times> int"
  tile_size :: int

record level_info =
  image_config :: image_config
  level_index :: int
  scale :: real
  shape_in_tiles :: "int \<times> int"

record octree_location =
  loc_slice_id :: int
  loc_level_index :: int
  loc_row :: int
  loc_col :: int

record octree_chunk_geom =
  pos :: "real \<times> real"
  geom_scale :: "real \<times> real"

record 'd octree_chunk =
  data :: 'd
  location :: octree_location
  geom :: octree_chunk_geom

text \<open>
  A grid cell holds either the untouched payload or a chunk object. Objects have identity:
  a chunk is referred to by its address in the list of allocated chunk objects.
\<close>

datatype 'd tile = Raw 'd | Chunk nat

record 'd octree_level =
  info :: level_info
  tiles :: "'d tile list list"

subsection \<open>The store\<close>

text \<open>
  A corner array is a 2 by 2 \<^verbatim>\<open>ndarray\<close>: two points, each \<open>(row, col)\<close>. Arrays live in
  a store and are referred to by address, because the constructor keeps views into an
  array and divides through them in place. The state also holds the chunk objects
  allocated so far and the level the intersection refers to.
\<close>

type_synonym ndarray = "(real \<times> real) \<times> (real \<times> real)"

record 'd state =
  arrays :: "ndarray list"
  chunk_objs :: "'d octree_chunk list"
  level :: "'d octree_level"

text \<open>The view \<^verbatim>\<open>a[:, k]\<close> of the array at an address.\<close>

datatype view = Column nat nat

definition ndarray_copy :: "'d state \<Rightarrow> nat \<Rightarrow> nat \<times> 'd state" where
  "ndarray_copy st a = (length (arrays st), st\<lparr>arrays := arrays st @ [arrays st ! a]\<rparr>)"

definition column_of :: "nat \<Rightarrow> ndarray \<Rightarrow> real \<times> real" where
  "column_of k arr = (if k = 0 then (fst (fst arr), fst (snd arr))
                      else (snd (fst arr), snd (snd arr)))"

definition div_column :: "nat \<Rightarrow> real \<Rightarrow> ndarray \<Rightarrow> ndarray" where
  "div_column k s arr =
     (if k = 0 then ((fst (fst arr) / s, snd (fst arr)), (fst (snd arr) / s, snd (snd arr)))
      else ((fst (fst arr), snd (fst arr) / s), (fst (snd arr), snd (snd arr) / s)))"

fun read_view :: "'d state \<Rightarrow> view \<Rightarrow> real \<times> real" where
  "read_view st (Column a k) = column_of k (arrays st ! a)"

text \<open>The in-place division \<^verbatim>\<open>v /= s\<close> through a view writes into the array viewed.\<close>

fun idiv_view :: "'d state \<Rightarrow> view \<Rightarrow> real \<Rightarrow> 'd state" where
  "idiv_view st (Column a k) s = st\<lparr>arrays := (arrays st)[a := div_column k s (arrays st ! a)]\<rparr>"

subsection \<open>Ranges and the range utility\<close>

text \<open>A Python \<^verbatim>\<open>range(start, stop)\<close> with step one.\<close>

record py_range =
  start :: int
  stop :: int

definition range_elems :: "py_range \<Rightarrow> int list" where
  "range_elems r = [start r..stop r - 1]"

text \<open>Python's \<^verbatim>\<open>int()\<close> on a float truncates toward zero.\<close>

definition py_int :: "real \<Rightarrow> int" where
  "py_int x = (if 0 \<le> x then \<lfloor>x\<rfloor> else \<lceil>x\<rceil>)"

text \<open>The local helper \<^verbatim>\<open>_clamp(val, min_val, max_val)\<close> of \<^verbatim>\<open>tile_range\<close>.\<close>

definition clamp :: "real \<Rightarrow> real \<Rightarrow> real \<Rightarrow> real" where
  "clamp val min_val max_val = max (min val max_val) min_val"

definition tile_range :: "level_info \<Rightarrow> real \<times> real \<Rightarrow> int \<Rightarrow> py_error + py_range" where
  "tile_range linfo spn num_tiles =
     (let ts = tile_size (image_config linfo) in
      if ts = 0 then Inl NonFinite
      else
        let span_tiles = (fst spn / of_int ts, snd spn / of_int ts);
            clamped = (clamp (fst span_tiles) 0 (of_int (num_tiles - 1)),
                       clamp (snd span_tiles) 0 (of_int (num_tiles - 1)) + 1)
        in Inr \<lparr>start = py_int (fst clamped), stop = py_int (snd clamped)\<rparr>)"

definition row_range :: "level_info \<Rightarrow> real \<times> real \<Rightarrow> py_error + py_range" where
  "row_range linfo spn = (let tile_rows = fst (shape_in_tiles linfo) in tile_range linfo spn tile_rows)"

definition column_range :: "level_info \<Rightarrow> real \<times> real \<Rightarrow> py_error + py_range" where
  "column_range linfo spn = (let tile_cols = snd (shape_in_tiles linfo) in tile_range linfo spn tile_cols)"

text \<open>
  The tile with index \<open>i\<close> covers \<open>[i * tile_size, (i + 1) * tile_size)\<close>; it overlaps the
  closed span \<open>[s0, s1]\<close> when the two intervals share a point.
\<close>

definition tile_overlaps :: "int \<Rightarrow> real \<times> real \<Rightarrow> int \<Rightarrow> bool" where
  "tile_overlaps ts spn i =
     (of_int i * of_int ts \<le> snd spn \<and> fst spn < of_int (i + 1) * of_int ts)"

subsection \<open>The range utility in float64 arithmetic\<close>

text \<open>
  \<open>tile_range\<close> above reads the quotients and the sum \<^verbatim>\<open>clamped + 1\<close> as exact reals.
  In the source they are \<^verbatim>\<open>float64\<close> operations, each rounded to the nearest value with a
  53-bit significand, ties to the even significand. The definitions below follow the same
  lines of the source with that rounding, so that the two readings can be compared where
  the rounding matters.

  \<open>pow2 e\<close> is \<open>2\<close> to the power \<open>e\<close>. \<open>f64_exponent x\<close> is the exponent of the binade of
  \<open>x\<close>, found by searching up or down from 0 and kept within \<open>[-1022, 1023]\<close>, so that
  values below the smallest normal number are rounded on the subnormal grid.
\<close>

definition pow2 :: "int \<Rightarrow> real" where
  "pow2 e = (if 0 \<le> e then 2 ^ nat e else 1 / 2 ^ nat (- e))"

function exp_up :: "real \<Rightarrow> int \<Rightarrow> int" where
  "exp_up x e = (if e < 1023 \<and> pow2 (e + 1) \<le> x then exp_up x (e + 1) else e)"
  by pat_completeness auto
termination
  by (relation "measure (\<lambda>(x, e). nat (1023 - e))") auto

function exp_down :: "real \<Rightarrow> int \<Rightarrow> int" where
  "exp_down x e = (if - 1022 < e \<and> x < pow2 e then exp_down x (e - 1) else e)"
  by pat_completeness auto
termination
  by (relation "measure (\<lambda>(x, e). nat (e + 1022))") auto

declare exp_up.simps [simp del]
declare exp_down.simps [simp del]

definition f64_exponent :: "real \<Rightarrow> int" where
  "f64_exponent x = (if 1 \<le> \<bar>x\<bar> then exp_up \<bar>x\<bar> 0 else exp_down \<bar>x\<bar> 0)"

text \<open>Rounding to the nearest integer, a tie going to the even one.\<close>

definition round_half_even :: "real \<Rightarrow> int" where
  "round_half_even y =
     (let f = \<lfloor>y\<rfloor>; d = y - of_int f
      in if d < 1 / 2 then f else if 1 / 2 < d then f + 1 else if even f then f else f + 1)"

text \<open>
  The nearest \<^verbatim>\<open>float64\<close> to a real. A result of magnitude \<open>2^1024\<close> or more is an
  infinity in the source and \<open>NonFinite\<close> here.
\<close>

definition fl64 :: "real \<Rightarrow> py_error + real" where
  "fl64 x =
     (let u = pow2 (f64_exponent x - 52);
          y = of_int (round_half_even (x / u)) * u
      in if pow2 1024 \<le> \<bar>y\<bar> then Inl NonFinite else Inr y)"

text \<open>
  \<^verbatim>\<open>_clamp\<close> returns either its float argument or one of its integer bounds, and Python
  adds 1 to an integer exactly but to a float with rounding; so the kind of number is kept.
  A comparison or an operation between a float and an integer converts the integer to
  \<^verbatim>\<open>float64\<close> first. \<^verbatim>\<open>min(val, max_val)\<close> keeps \<open>val\<close> unless \<open>max_val < val\<close>, and
  \<^verbatim>\<open>max(m, min_val)\<close> keeps \<open>m\<close> unless \<open>min_val > m\<close>.
\<close>

datatype py_num = PyInt int | PyFloat real

definition bind_err :: "py_error + 'a \<Rightarrow> ('a \<Rightarrow> py_error + 'b) \<Rightarrow> py_error + 'b" where
  "bind_err m f = (case m of Inl e \<Rightarrow> Inl e | Inr v \<Rightarrow> f v)"

definition min_f64 :: "real \<Rightarrow> int \<Rightarrow> py_error + py_num" where
  "min_f64 val max_val =
     bind_err (fl64 (of_int max_val)) (\<lambda>m. Inr (if m < val then PyInt max_val else PyFloat val))"

definition max_f64 :: "py_num \<Rightarrow> int \<Rightarrow> py_error + py_num" where
  "max_f64 v min_val =
     (case v of
        PyInt i \<Rightarrow> Inr (if i < min_val then PyInt min_val else PyInt i)
      | PyFloat x \<Rightarrow>
          bind_err (fl64 (of_int min_val)) (\<lambda>m. Inr (if x < m then PyInt min_val else PyFloat x)))"

definition clamp_f64 :: "real \<Rightarrow> int \<Rightarrow> int \<Rightarrow> py_error + py_num" where
  "clamp_f64 val min_val max_val = bind_err (min_f64 val max_val) (\<lambda>m. max_f64 m min_val)"

definition add_f64 :: "py_num \<Rightarrow> int \<Rightarrow> py_error + py_num" where
  "add_f64 v k =
     (case v of
        PyInt i \<Rightarrow> Inr (PyInt (i + k))
      | PyFloat x \<Rightarrow>
          bind_err (fl64 (of_int k)) (\<lambda>c. bind_err (fl64 (x + c)) (\<lambda>s. Inr (PyFloat s))))"

definition div_f64 :: "real \<Rightarrow> int \<Rightarrow> py_error + real" where
  "div_f64 x k =
     bind_err (fl64 (of_int k)) (\<lambda>d. if d = 0 then Inl NonFinite else fl64 (x / d))"

fun int_of_num :: "py_num \<Rightarrow> int" where
  "int_of_num (PyInt i) = i"
| "int_of_num (PyFloat x) = py_int x"

definition tile_range_f64 :: "level_info \<Rightarrow> real \<times> real \<Rightarrow> int \<Rightarrow> py_error + py_range" where
  "tile_range_f64 linfo spn num_tiles =
     (let ts = tile_size (image_config linfo) in
      bind_err (div_f64 (fst spn) ts) (\<lambda>t0.
      bind_err (div_f64 (snd spn) ts) (\<lambda>t1.
      bind_err (clamp_f64 t0 0 (num_tiles - 1)) (\<lambda>c0.
      bind_err (clamp_f64 t1 0 (num_tiles - 1)) (\<lambda>c.
      bind_err (add_f64 c 1) (\<lambda>c1.
      Inr \<lparr>start = int_of_num c0, stop = int_of_num c1\<rparr>))))))"

text \<open>
  Two \<^verbatim>\<open>float64\<close> values: the one just below 200, printed \<^verbatim>\<open>199.99999999999997\<close>, and
  the one just below 2, printed \<^verbatim>\<open>1.9999999999999998\<close>.
\<close>

definition f64_below_200 :: real where
  "f64_below_200 = 200 - 1 / 2 ^ 45"

definition f64_below_2 :: real where
  "f64_below_2 = 2 - 1 / 2 ^ 52"

subsection \<open>The intersection\<close>

record octree_intersection =
  corners_2d :: nat
  rows :: view
  cols :: view
  normalized_range :: "(real \<times> real) \<times> (real \<times> real)"
  u_row_range :: py_range
  u_col_range :: py_range

text \<open>\<^verbatim>\<open>np.clip(a, lo, hi)\<close> on a pair of finite values.\<close>

definition np_clip :: "real \<times> real \<Rightarrow> real \<Rightarrow> real \<Rightarrow> real \<times> real" where
  "np_clip v lo hi = (min (max (fst v) lo) hi, min (max (snd v) lo) hi)"

text \<open>
  The constructor \<^verbatim>\<open>__init__(self, level, corners_2d)\<close>. The level is the one held in the
  state; \<open>corners\<close> is the address of the caller's array.
\<close>

definition init :: "'d state \<Rightarrow> nat \<Rightarrow> py_error + (octree_intersection \<times> 'd state)" where
  "init st corners =
     (let (self_corners, st1) = ndarray_copy st corners;
          linfo = info (level st1);
          self_rows = Column self_corners 0;
          self_cols = Column self_corners 1;
          base = base_shape (image_config linfo)
      in if fst base = 0 \<or> snd base = 0 then Inl NonFinite
         else
           let r = read_view st1 self_rows;
               c = read_view st1 self_cols;
               nr = (np_clip (fst r / of_int (fst base), snd r / of_int (fst base)) 0 1,
                     np_clip (fst c / of_int (snd base), snd c / of_int (snd base)) 0 1)
           in if scale linfo = 0 then Inl NonFinite
              else
                let st2 = idiv_view st1 self_rows (scale linfo);
                    st3 = idiv_view st2 self_cols (scale linfo)
                in case row_range linfo (read_view st3 self_rows) of
                     Inl e \<Rightarrow> Inl e
                   | Inr rr \<Rightarrow>
                      (case column_range linfo (read_view st3 self_cols) of
                         Inl e \<Rightarrow> Inl e
                       | Inr cr \<Rightarrow>
                           Inr (\<lparr>corners_2d = self_corners, rows = self_rows, cols = self_cols,
                                 normalized_range = nr, u_row_range = rr, u_col_range = cr\<rparr>,
                                st3)))"

text \<open>The local helper \<^verbatim>\<open>_inside(value, value_range)\<close> of \<^verbatim>\<open>is_visible\<close>.\<close>

definition inside :: "int \<Rightarrow> py_range \<Rightarrow> bool" where
  "inside v value_range = (start value_range \<le> v \<and> v < stop value_range)"

definition is_visible :: "octree_intersection \<Rightarrow> int \<Rightarrow> int \<Rightarrow> bool" where
  "is_visible self r c = (inside r (u_row_range self) \<and> inside c (u_col_range self))"

subsection \<open>Chunk retrieval\<close>

text \<open>Python list indexing: a negative index counts from the end, out of range raises.\<close>

definition py_index :: "'a list \<Rightarrow> int \<Rightarrow> py_error + nat" where
  "py_index xs i =
     (let n = int (length xs); j = (if i < 0 then n + i else i)
      in if 0 \<le> j \<and> j < n then Inr (nat j) else Inl IndexError)"

definition get_tile :: "'d tile list list \<Rightarrow> int \<Rightarrow> int \<Rightarrow> py_error + 'd tile" where
  "get_tile g r c =
     (case py_index g r of
        Inl e \<Rightarrow> Inl e
      | Inr i \<Rightarrow> (case py_index (g ! i) c of Inl e \<Rightarrow> Inl e | Inr j \<Rightarrow> Inr (g ! i ! j)))"

definition scaled_size :: "level_info \<Rightarrow> real" where
  "scaled_size linfo = of_int (tile_size (image_config linfo)) * scale linfo"

text \<open>
  The body of the inner loop of \<^verbatim>\<open>get_chunks\<close> for one \<open>(row, col)\<close>: it returns the
  address of the chunk appended to the result, and the state.
\<close>

definition visit_tile ::
  "'d state \<Rightarrow> int \<Rightarrow> level_info \<Rightarrow> int \<Rightarrow> int \<Rightarrow> real \<Rightarrow> real \<Rightarrow> py_error + (nat \<times> 'd state)" where
  "visit_tile st slice_id linfo r c x y =
     (let g = tiles (level st) in
      case py_index g r of
        Inl e \<Rightarrow> Inl e
      | Inr i \<Rightarrow>
         (case py_index (g ! i) c of
            Inl e \<Rightarrow> Inl e
          | Inr j \<Rightarrow>
             (case g ! i ! j of
                Chunk k \<Rightarrow> Inr (k, st)
              | Raw d \<Rightarrow>
                 let loc = \<lparr>loc_slice_id = slice_id, loc_level_index = level_index linfo,
                            loc_row = r, loc_col = c\<rparr>;
                     gm = \<lparr>pos = (x, y), geom_scale = (scale linfo, scale linfo)\<rparr>;
                     chunk = \<lparr>data = d, location = loc, geom = gm\<rparr>;
                     k = length (chunk_objs st)
                 in Inr (k, st\<lparr>chunk_objs := chunk_objs st @ [chunk],
                               level := (level st)\<lparr>tiles := g[i := (g ! i)[j := Chunk k]]\<rparr>\<rparr>))))"

text \<open>The inner loop over the columns; \<open>x\<close> advances by the scaled tile size.\<close>

fun col_loop ::
  "'d state \<Rightarrow> int \<Rightarrow> level_info \<Rightarrow> int \<Rightarrow> int list \<Rightarrow> real \<Rightarrow> real
     \<Rightarrow> py_error + (nat list \<times> 'd state)" where
  "col_loop st slice_id linfo r [] x y = Inr ([], st)"
| "col_loop st slice_id linfo r (c # cs) x y =
     (case visit_tile st slice_id linfo r c x y of
        Inl e \<Rightarrow> Inl e
      | Inr (k, st') \<Rightarrow>
         (case col_loop st' slice_id linfo r cs (x + scaled_size linfo) y of
            Inl e \<Rightarrow> Inl e
          | Inr (ks, st'') \<Rightarrow> Inr (k # ks, st'')))"

text \<open>The outer loop over the rows; each row starts \<open>x\<close> afresh and \<open>y\<close> advances.\<close>

fun row_loop ::
  "'d state \<Rightarrow> int \<Rightarrow> level_info \<Rightarrow> py_range \<Rightarrow> int list \<Rightarrow> real
     \<Rightarrow> py_error + (nat list \<times> 'd state)" where
  "row_loop st slice_id linfo cr [] y = Inr ([], st)"
| "row_loop st slice_id linfo cr (r # rs) y =
     (let x = of_int (start cr) * scaled_size linfo in
      case col_loop st slice_id linfo r (range_elems cr) x y of
        Inl e \<Rightarrow> Inl e
      | Inr (ks, st') \<Rightarrow>
         (case row_loop st' slice_id linfo cr rs (y + scaled_size linfo) of
            Inl e \<Rightarrow> Inl e
          | Inr (ks', st'') \<Rightarrow> Inr (ks @ ks', st'')))"

definition get_chunks ::
  "'d state \<Rightarrow> octree_intersection \<Rightarrow> int \<Rightarrow> py_error + (nat list \<times> 'd state)" where
  "get_chunks st self slice_id =
     (let level_info = info (level st);
          y = of_int (start (u_row_range self)) * scaled_size level_info
      in row_loop st slice_id level_info (u_col_range self) (range_elems (u_row_range self)) y)"

text \<open>A sequence of calls on one intersection.\<close>

datatype call = IsVisible int int | GetChunks int

fun run_calls :: "'d state \<Rightarrow> octree_intersection \<Rightarrow> call list \<Rightarrow> py_error + 'd state" where
  "run_calls st self [] = Inr st"
| "run_calls st self (IsVisible r c # calls) =
     (let b = is_visible self r c in run_calls st self calls)"
| "run_calls st self (GetChunks slice_id # calls) =
     (case get_chunks st self slice_id of
        Inl e \<Rightarrow> Inl e
      | Inr (ks, st') \<Rightarrow> run_calls st' self calls)"

subsection \<open>Well-formed levels and relations between grids\<close>



text \<open>
  \<open>grid_le g g'\<close>: the grids have the same shape and every cell that holds a chunk in
  \<open>g\<close> holds the same chunk in \<open>g'\<close>.
\<close>

definition grid_le :: "'d tile list list \<Rightarrow> 'd tile list list \<Rightarrow> bool" where
  "grid_le g g' =
     (length g' = length g
      \<and> (\<forall>i < length g. length (g' ! i) = length (g ! i)
            \<and> (\<forall>j < length (g ! i). \<forall>k. g ! i ! j = Chunk k \<longrightarrow> g' ! i ! j = Chunk k)))"

subsection \<open>The scenario of the specification\<close>

text \<open>
  Base image 1000 by 1000, level scale 2, tile size 100, a grid of 5 by 5 raw tiles, and
  the caller's corner array \<open>[[0, 0], [250, 250]]\<close> at address 0.
\<close>

definition scenario_info :: level_info where
  "scenario_info = \<lparr>image_config = \<lparr>base_shape = (1000, 1000), tile_size = 100\<rparr>,
                     level_index = 1, scale = 2, shape_in_tiles = (5, 5)\<rparr>"

definition scenario_state :: "unit state" where
  "scenario_state =
     \<lparr>arrays = [((0, 0), (250, 250))], chunk_objs = [],
      level = \<lparr>info = scenario_info, tiles = replicate 5 (replicate 5 (Raw ()))\<rparr>\<rparr>"

text \<open>The intersection and the state that the constructor yields there.\<close>

definition scenario_isect :: octree_intersection where
  "scenario_isect =
     \<lparr>corners_2d = 1, rows = Column 1 0, cols = Column 1 1,
      normalized_range = ((0, 1 / 4), (0, 1 / 4)),
      u_row_range = \<lparr>start = 0, stop = 2\<rparr>, u_col_range = \<lparr>start = 0, stop = 2\<rparr>\<rparr>"

definition scenario_state1 :: "unit state" where
  "scenario_state1 = scenario_state\<lparr>arrays := [((0, 0), (250, 250)), ((0, 0), (125, 125))]\<rparr>"

text \<open>The chunk built for a cell of the scenario by a query with slice id \<open>sid\<close>.\<close>

definition scenario_chunk :: "int \<Rightarrow> int \<Rightarrow> int \<Rightarrow> real \<Rightarrow> real \<Rightarrow> unit octree_chunk" where
  "scenario_chunk sid r c x y =
     \<lparr>data = (),
      location = \<lparr>loc_slice_id = sid, loc_level_index = 1, loc_row = r, loc_col = c\<rparr>,
      geom = \<lparr>pos = (x, y), geom_scale = (2, 2)\<rparr>\<rparr>"

definition scenario_state2 :: "int \<Rightarrow> unit state" where
  "scenario_state2 sid =
     \<lparr>arrays = [((0, 0), (250, 250)), ((0, 0), (125, 125))],
      chunk_objs = [scenario_chunk sid 0 0 0 0, scenario_chunk sid 0 1 200 0,
                    scenario_chunk sid 1 0 0 200, scenario_chunk sid 1 1 200 200],
      level = \<lparr>info = scenario_info,
               tiles = [[Chunk 0, Chunk 1, Raw (), Raw (), Raw ()],
                        [Chunk 2, Chunk 3, Raw (), Raw (), Raw ()],
                        replicate 5 (Raw ()), replicate 5 (Raw ()), replicate 5 (Raw ())]\<rparr>\<rparr>"


text \<open>
  The corner array after both of its columns were divided in place by \<open>s\<close>.
\<close>

definition scaled_corners :: "real \<Rightarrow> ndarray \<Rightarrow> ndarray" where
  "scaled_corners s arr =
     ((fst (fst arr) / s, snd (fst arr) / s), (fst (snd arr) / s, snd (snd arr) / s))"

section \<open>Properties of the range utility\<close>

lemma clamp_bounds: "lo \<le> hi \<Longrightarrow> lo \<le> clamp v lo hi \<and> clamp v lo hi \<le> hi"
  by (auto simp: clamp_def)

lemma clamp_mono: "a \<le> b \<Longrightarrow> clamp a lo hi \<le> clamp b lo hi"
  by (auto simp: clamp_def)

lemma py_int_nonneg: "0 \<le> x \<Longrightarrow> py_int x = \<lfloor>x\<rfloor>"
  by (simp add: py_int_def)

lemma py_int_clamp:
  assumes "1 \<le> n"
  shows "py_int (clamp v 0 (of_int (n - 1))) = \<lfloor>clamp v 0 (of_int (n - 1))\<rfloor>"
    and "py_int (clamp v 0 (of_int (n - 1)) + 1) = \<lfloor>clamp v 0 (of_int (n - 1))\<rfloor> + 1"
    and "0 \<le> \<lfloor>clamp v 0 (of_int (n - 1))\<rfloor>"
    and "\<lfloor>clamp v 0 (of_int (n - 1))\<rfloor> \<le> n - 1"
proof -
  have hi: "(0::real) \<le> of_int (n - 1)" using assms by simp
  note b = clamp_bounds[OF hi, of v]
  show "py_int (clamp v 0 (of_int (n - 1))) = \<lfloor>clamp v 0 (of_int (n - 1))\<rfloor>"
    using b by (simp add: py_int_nonneg)
  show "py_int (clamp v 0 (of_int (n - 1)) + 1) = \<lfloor>clamp v 0 (of_int (n - 1))\<rfloor> + 1"
    using b by (simp add: py_int_nonneg)
  show "0 \<le> \<lfloor>clamp v 0 (of_int (n - 1))\<rfloor>" using b by simp
  show "\<lfloor>clamp v 0 (of_int (n - 1))\<rfloor> \<le> n - 1"
    using b floor_mono[of "clamp v 0 (of_int (n - 1))" "of_int (n - 1)"] by simp
qed

text \<open>With a non-zero tile size and at least one tile, both ends are floors of clamped quotients.\<close>

lemma tile_range_eq:
  assumes "tile_size (image_config linfo) \<noteq> 0" "1 \<le> num_tiles"
  shows "tile_range linfo spn num_tiles =
    Inr \<lparr>start = \<lfloor>clamp (fst spn / of_int (tile_size (image_config linfo))) 0
                         (of_int (num_tiles - 1))\<rfloor>,
         stop = \<lfloor>clamp (snd spn / of_int (tile_size (image_config linfo))) 0
                        (of_int (num_tiles - 1))\<rfloor> + 1\<rparr>"
  using assms py_int_clamp(1,2)[OF assms(2)] by (simp add: tile_range_def Let_def)

lemma tile_range_start_less_stop:
  assumes "0 < tile_size (image_config linfo)" "1 \<le> num_tiles" "fst spn \<le> snd spn"
  shows "\<exists>r. tile_range linfo spn num_tiles = Inr r \<and> 0 \<le> start r \<and> start r < stop r
            \<and> stop r \<le> num_tiles"
proof -
  let ?ts = "tile_size (image_config linfo)"
  have ts: "?ts \<noteq> 0" using assms(1) by simp
  define s where "s = \<lfloor>clamp (fst spn / of_int ?ts) 0 (of_int (num_tiles - 1))\<rfloor>"
  define e where "e = \<lfloor>clamp (snd spn / of_int ?ts) 0 (of_int (num_tiles - 1))\<rfloor>"
  have s: "0 \<le> s" unfolding s_def by (rule py_int_clamp(3)[OF assms(2)])
  have e: "e \<le> num_tiles - 1" unfolding e_def by (rule py_int_clamp(4)[OF assms(2)])
  have "fst spn / of_int ?ts \<le> snd spn / of_int ?ts"
    using assms(1,3) by (simp add: divide_right_mono)
  then have se: "s \<le> e" unfolding s_def e_def by (intro floor_mono clamp_mono)
  have eq: "tile_range linfo spn num_tiles = Inr \<lparr>start = s, stop = e + 1\<rparr>"
    unfolding s_def e_def by (rule tile_range_eq[OF ts assms(2)])
  show ?thesis unfolding eq using s e se by simp
qed

text \<open>
  Claim C2. For a span with \<open>span[0] \<le> span[1]\<close>, a positive tile size and a positive
  number of tiles, \<open>tile_range\<close> returns a range whose start is at least 0 and whose stop
  is at most \<open>num_tiles\<close>, so that every index of the range lies in \<open>[0, num_tiles)\<close>.
\<close>

theorem tile_range_within:
  assumes "0 < tile_size (image_config linfo)" "1 \<le> num_tiles" "fst spn \<le> snd spn"
  shows "\<exists>r. tile_range linfo spn num_tiles = Inr r \<and> 0 \<le> start r \<and> stop r \<le> num_tiles
            \<and> set (range_elems r) \<subseteq> {0..<num_tiles}"
proof -
  obtain r where r: "tile_range linfo spn num_tiles = Inr r" "0 \<le> start r" "stop r \<le> num_tiles"
    using tile_range_start_less_stop[OF assms] by blast
  then have "set (range_elems r) \<subseteq> {0..<num_tiles}"
    by (auto simp: range_elems_def)
  with r show ?thesis by blast
qed

theorem tile_range_within_witness:
  "0 < tile_size (image_config scenario_info) \<and> (1::int) \<le> 5
   \<and> fst (0::real, 125::real) \<le> snd (0::real, 125::real)
   \<and> (\<exists>r. tile_range scenario_info (0, 125) 5 = Inr r \<and> 0 \<le> start r \<and> stop r \<le> 5
            \<and> set (range_elems r) \<subseteq> {0..<5})"
proof -
  have h: "0 < tile_size (image_config scenario_info)" "(1::int) \<le> 5"
    "fst (0::real, 125::real) \<le> snd (0::real, 125::real)"
    by (simp_all add: scenario_info_def)
  show ?thesis using h tile_range_within[OF h] by blast
qed

text \<open>
  Claim C3. A span entirely below the valid interval \<open>[0, num_tiles * tile_size)\<close> gives
  the range \<open>[0, 1)\<close>, whose only index is 0; a span entirely above it gives
  \<open>[num_tiles - 1, num_tiles)\<close>, whose only index is \<open>num_tiles - 1\<close>. Neither is empty
  and neither is an error.
\<close>

theorem tile_range_outside:
  assumes "0 < tile_size (image_config linfo)" "1 \<le> num_tiles" "fst spn \<le> snd spn"
  shows "(snd spn < 0 \<longrightarrow>
            tile_range linfo spn num_tiles = Inr \<lparr>start = 0, stop = 1\<rparr>
            \<and> range_elems \<lparr>start = 0, stop = 1\<rparr> = [0])
       \<and> (of_int num_tiles * of_int (tile_size (image_config linfo)) \<le> fst spn \<longrightarrow>
            tile_range linfo spn num_tiles = Inr \<lparr>start = num_tiles - 1, stop = num_tiles\<rparr>
            \<and> range_elems \<lparr>start = num_tiles - 1, stop = num_tiles\<rparr> = [num_tiles - 1])"
proof (intro conjI impI)
  let ?ts = "tile_size (image_config linfo)"
  have ts: "?ts \<noteq> 0" using assms(1) by simp
  {
    assume "snd spn < 0"
    then have "fst spn / of_int ?ts \<le> 0" "snd spn / of_int ?ts \<le> 0"
      using assms by (simp_all add: divide_le_0_iff)
    then have "clamp (fst spn / of_int ?ts) 0 (of_int (num_tiles - 1)) = 0"
         "clamp (snd spn / of_int ?ts) 0 (of_int (num_tiles - 1)) = 0"
      using assms(2) by (simp_all add: clamp_def)
    then show "tile_range linfo spn num_tiles = Inr \<lparr>start = 0, stop = 1\<rparr>"
      by (simp add: tile_range_eq[OF ts assms(2)])
  }
  {
    assume "of_int num_tiles * of_int ?ts \<le> fst spn"
    then have "of_int num_tiles \<le> fst spn / of_int ?ts" "of_int num_tiles \<le> snd spn / of_int ?ts"
      using assms by (simp_all add: pos_le_divide_eq)
    then have "clamp (fst spn / of_int ?ts) 0 (of_int (num_tiles - 1)) = of_int (num_tiles - 1)"
         "clamp (snd spn / of_int ?ts) 0 (of_int (num_tiles - 1)) = of_int (num_tiles - 1)"
      using assms(2) by (simp_all add: clamp_def)
    then show "tile_range linfo spn num_tiles = Inr \<lparr>start = num_tiles - 1, stop = num_tiles\<rparr>"
      by (simp add: tile_range_eq[OF ts assms(2)])
  }
  show "range_elems \<lparr>start = 0, stop = 1\<rparr> = [0]"
    by (simp add: range_elems_def)
  show "range_elems \<lparr>start = num_tiles - 1, stop = num_tiles\<rparr> = [num_tiles - 1]"
    by (simp add: range_elems_def)
qed

theorem tile_range_outside_witness:
  "0 < tile_size (image_config scenario_info) \<and> (1::int) \<le> 5
   \<and> snd (- 500::real, - 100::real) < 0
   \<and> tile_range scenario_info (- 500, - 100) 5 = Inr \<lparr>start = 0, stop = 1\<rparr>
   \<and> of_int 5 * of_int (tile_size (image_config scenario_info)) \<le> fst (600::real, 900::real)
   \<and> tile_range scenario_info (600, 900) 5 = Inr \<lparr>start = 4, stop = 5\<rparr>"
proof -
  have h: "0 < tile_size (image_config scenario_info)" "(1::int) \<le> 5"
    by (simp_all add: scenario_info_def)
  have b: "fst (- 500::real, - 100::real) \<le> snd (- 500::real, - 100::real)"
    "snd (- 500::real, - 100::real) < 0" by simp_all
  have a: "fst (600::real, 900::real) \<le> snd (600::real, 900::real)"
    "of_int 5 * of_int (tile_size (image_config scenario_info)) \<le> fst (600::real, 900::real)"
    by (simp_all add: scenario_info_def)
  show ?thesis
    using h b a tile_range_outside[OF h b(1)] tile_range_outside[OF h a(1)] by simp
qed

text \<open>
  Read over exact reals, \<open>tile_range\<close> returns exactly the overlapping tiles: for a span
  inside \<open>[0, num_tiles * tile_size)\<close> with \<open>span[0] \<le> span[1]\<close>, an index belongs to the
  range exactly when its tile rectangle \<open>[i * tile_size, (i + 1) * tile_size)\<close> overlaps the
  span.
\<close>

lemma tile_range_exact_covers:
  assumes "0 < tile_size (image_config linfo)" "0 \<le> fst spn" "fst spn \<le> snd spn"
    "snd spn < of_int num_tiles * of_int (tile_size (image_config linfo))"
  shows "\<exists>r. tile_range linfo spn num_tiles = Inr r \<and>
    (\<forall>i. (i \<in> set (range_elems r)) = tile_overlaps (tile_size (image_config linfo)) spn i)"
proof -
  let ?ts = "tile_size (image_config linfo)"
  have ts: "?ts \<noteq> 0" using assms(1) by simp
  have pos: "(0::real) < of_int ?ts" using assms(1) by simp
  have "(0::real) < of_int num_tiles * of_int ?ts" using assms by linarith
  then have "(0::real) < of_int num_tiles" using pos by (simp add: zero_less_mult_iff)
  then have nt: "1 \<le> num_tiles" by simp
  let ?t0 = "fst spn / of_int ?ts" and ?t1 = "snd spn / of_int ?ts"
  have t0: "0 \<le> ?t0" using assms pos by simp
  have t01: "?t0 \<le> ?t1" using assms pos by (simp add: divide_right_mono)
  have t1: "?t1 < of_int num_tiles" using assms pos by (simp add: pos_divide_less_eq)
  have fl: "\<lfloor>clamp t 0 (of_int (num_tiles - 1))\<rfloor> = \<lfloor>t\<rfloor>"
    if "0 \<le> t" "t < of_int num_tiles" for t :: real
  proof (cases "t \<le> of_int (num_tiles - 1)")
    case True
    then show ?thesis using that by (simp add: clamp_def)
  next
    case False
    then have c: "clamp t 0 (of_int (num_tiles - 1)) = of_int (num_tiles - 1)"
      using nt by (simp add: clamp_def)
    have "\<lfloor>t\<rfloor> = num_tiles - 1"
      using False that by (simp add: floor_eq_iff)
    then show ?thesis using c by simp
  qed
  have f0: "\<lfloor>clamp ?t0 0 (of_int (num_tiles - 1))\<rfloor> = \<lfloor>?t0\<rfloor>"
    using fl[OF t0] t01 t1 by simp
  have f1: "\<lfloor>clamp ?t1 0 (of_int (num_tiles - 1))\<rfloor> = \<lfloor>?t1\<rfloor>"
    using fl[OF _ t1] t0 t01 by simp
  have lo: "(\<lfloor>?t0\<rfloor> \<le> i) = (fst spn < of_int (i + 1) * of_int ?ts)" for i
    using pos by (simp add: floor_le_iff pos_divide_less_eq)
  have hi: "(i < \<lfloor>?t1\<rfloor> + 1) = (of_int i * of_int ?ts \<le> snd spn)" for i
    using pos by (simp add: le_floor_iff pos_le_divide_eq)
  have "(i \<in> set (range_elems \<lparr>start = \<lfloor>?t0\<rfloor>, stop = \<lfloor>?t1\<rfloor> + 1\<rparr>)) = tile_overlaps ?ts spn i" for i
    using lo[of i] hi[of i] by (auto simp: range_elems_def tile_overlaps_def)
  then show ?thesis
    unfolding tile_range_eq[OF ts nt] f0 f1 by simp
qed

section \<open>The range utility under float64 rounding\<close>

lemma pow2_num: "pow2 (numeral n) = 2 ^ numeral n" "pow2 (- numeral n) = 1 / 2 ^ numeral n"
  "pow2 0 = 1" "pow2 1 = 2"
  by (simp_all add: pow2_def)

lemma pow2_pos: "0 < pow2 e"
  by (simp add: pow2_def)

lemma exp_down_zero: "- 1022 \<le> e \<Longrightarrow> exp_down 0 e = - 1022"
proof (induction "0::real" e rule: exp_down.induct)
  case (1 e)
  show ?case
  proof (cases "- 1022 < e")
    case True
    then have "exp_down 0 e = exp_down 0 (e - 1)"
      using pow2_pos[of e] by (subst exp_down.simps) simp
    also have "\<dots> = - 1022" using True "1.hyps" pow2_pos[of e] by simp
    finally show ?thesis .
  next
    case False
    then have "e = - 1022" using "1.prems" by simp
    then show ?thesis by (subst exp_down.simps) simp
  qed
qed

lemma fl64_0: "fl64 0 = Inr 0"
  by (simp add: fl64_def f64_exponent_def exp_down_zero Let_def round_half_even_def pow2_num)

lemma fl64_1: "fl64 1 = Inr 1"
proof -
  have e: "f64_exponent 1 = 0"
    by (simp add: f64_exponent_def exp_up.simps[of _ 0] pow2_num)
  show ?thesis by (simp add: fl64_def e Let_def pow2_num round_half_even_def)
qed

lemma fl64_4: "fl64 4 = Inr 4"
proof -
  have e: "f64_exponent 4 = 2"
    by (simp add: f64_exponent_def exp_up.simps[of _ 0] exp_up.simps[of _ 1] exp_up.simps[of _ 2]
        pow2_num)
  show ?thesis by (simp add: fl64_def e Let_def pow2_num round_half_even_def)
qed

lemma fl64_100: "fl64 100 = Inr 100"
proof -
  have e: "f64_exponent 100 = 6"
    by (simp add: f64_exponent_def exp_up.simps[of _ 0] exp_up.simps[of _ 1] exp_up.simps[of _ 2]
        exp_up.simps[of _ 3] exp_up.simps[of _ 4] exp_up.simps[of _ 5] exp_up.simps[of _ 6] pow2_num)
  show ?thesis
    by (simp add: fl64_def e Let_def pow2_num round_half_even_def)
qed

lemma fl64_quotient: "fl64 (f64_below_200 / 100) = Inr f64_below_2"
proof -
  have e: "f64_exponent (f64_below_200 / 100) = 0"
    by (simp add: f64_exponent_def f64_below_200_def exp_up.simps[of _ 0] pow2_num)
  show ?thesis
    unfolding fl64_def e
    by (simp add: Let_def pow2_num round_half_even_def f64_below_200_def f64_below_2_def)
qed

lemma fl64_sum: "fl64 (f64_below_2 + 1) = Inr 3"
proof -
  have e: "f64_exponent (f64_below_2 + 1) = 1"
    by (simp add: f64_exponent_def f64_below_2_def exp_up.simps[of _ 0] exp_up.simps[of _ 1]
        pow2_num)
  show ?thesis
    unfolding fl64_def e
    by (simp add: Let_def pow2_num round_half_even_def f64_below_2_def)
qed

lemma div_f64_zero: "div_f64 0 100 = Inr 0"
  using fl64_100 fl64_0 by (simp add: div_f64_def bind_err_def)

lemma div_f64_below_200: "div_f64 f64_below_200 100 = Inr f64_below_2"
  using fl64_100 fl64_quotient by (simp add: div_f64_def bind_err_def)

lemma clamp_f64_zero: "clamp_f64 0 0 4 = Inr (PyFloat 0)"
  using fl64_4 fl64_0 by (simp add: clamp_f64_def min_f64_def max_f64_def bind_err_def)

lemma f64_below_2_bounds: "0 < f64_below_2" "f64_below_2 < 4"
  by (simp_all add: f64_below_2_def)

lemma clamp_f64_below_2: "clamp_f64 f64_below_2 0 4 = Inr (PyFloat f64_below_2)"
  using fl64_4 fl64_0 f64_below_2_bounds
  by (simp add: clamp_f64_def min_f64_def max_f64_def bind_err_def)

lemma add_f64_below_2: "add_f64 (PyFloat f64_below_2) 1 = Inr (PyFloat 3)"
  using fl64_1 fl64_sum by (simp add: add_f64_def bind_err_def)

lemma tile_range_f64_boundary:
  "tile_range_f64 scenario_info (0, f64_below_200) 5 = Inr \<lparr>start = 0, stop = 3\<rparr>"
proof -
  have ts: "tile_size (image_config scenario_info) = 100"
    by (simp add: scenario_info_def)
  show ?thesis
    unfolding tile_range_f64_def ts Let_def
    by (simp add: bind_err_def div_f64_zero div_f64_below_200 clamp_f64_zero clamp_f64_below_2
        add_f64_below_2 py_int_def)
qed

lemma f64_below_200_is_f64: "fl64 f64_below_200 = Inr f64_below_200"
proof -
  have e: "f64_exponent f64_below_200 = 7"
    by (simp add: f64_exponent_def f64_below_200_def exp_up.simps[of _ 0] exp_up.simps[of _ 1]
        exp_up.simps[of _ 2] exp_up.simps[of _ 3] exp_up.simps[of _ 4] exp_up.simps[of _ 5]
        exp_up.simps[of _ 6] exp_up.simps[of _ 7] pow2_num)
  show ?thesis
    unfolding fl64_def e
    by (simp add: Let_def pow2_num round_half_even_def f64_below_200_def)
qed

text \<open>
  Claim C4 says that for a span inside \<open>[0, num_tiles * tile_size)\<close> the range returned by
  \<open>tile_range\<close> contains every tile whose rectangle overlaps the span and no tile whose
  rectangle is disjoint from it. In \<^verbatim>\<open>float64\<close> arithmetic the second half fails. With
  tile size 100 and 5 tiles, the span \<open>(0.0, 199.99999999999997)\<close> lies inside \<open>[0, 500)\<close>
  and both of its ends are \<^verbatim>\<open>float64\<close> values. The quotient of its upper end by 100
  rounds to \<open>1.9999999999999998\<close>, and that plus 1 is a tie that rounds to \<open>3.0\<close>, so the
  range is \<open>[0, 3)\<close>. It contains the index 2, whose rectangle \<open>[200, 300)\<close> does not overlap
  the span. Read over exact reals the same call gives \<open>[0, 2)\<close>.
\<close>

theorem tile_range_f64_extra_tile:
  "fl64 0 = Inr 0 \<and> fl64 f64_below_200 = Inr f64_below_200
   \<and> 0 \<le> fst (0::real, f64_below_200)
   \<and> fst (0::real, f64_below_200) \<le> snd (0::real, f64_below_200)
   \<and> snd (0::real, f64_below_200) < of_int 5 * of_int (tile_size (image_config scenario_info))
   \<and> tile_range_f64 scenario_info (0, f64_below_200) 5 = Inr \<lparr>start = 0, stop = 3\<rparr>
   \<and> 2 \<in> set (range_elems \<lparr>start = 0, stop = 3\<rparr>)
   \<and> \<not> tile_overlaps (tile_size (image_config scenario_info)) (0, f64_below_200) 2
   \<and> tile_range scenario_info (0, f64_below_200) 5 = Inr \<lparr>start = 0, stop = 2\<rparr>"
proof -
  have a: "0 \<le> fst (0::real, f64_below_200)"
    "fst (0::real, f64_below_200) \<le> snd (0::real, f64_below_200)"
    "snd (0::real, f64_below_200) < of_int 5 * of_int (tile_size (image_config scenario_info))"
    by (simp_all add: f64_below_200_def scenario_info_def)
  have b: "2 \<in> set (range_elems \<lparr>start = 0, stop = 3\<rparr>)"
    by (simp add: range_elems_def)
  have c: "\<not> tile_overlaps (tile_size (image_config scenario_info)) (0, f64_below_200) 2"
    by (simp add: tile_overlaps_def f64_below_200_def scenario_info_def)
  have d: "tile_range scenario_info (0, f64_below_200) 5 = Inr \<lparr>start = 0, stop = 2\<rparr>"
    by (simp add: tile_range_def scenario_info_def Let_def clamp_def py_int_def f64_below_200_def)
  show ?thesis
    using fl64_0 f64_below_200_is_f64 a tile_range_f64_boundary b c d by blast
qed

section \<open>Evaluating the scenario\<close>

lemma scenario_init: "init scenario_state 0 = Inr (scenario_isect, scenario_state1)"
  by (simp add: init_def ndarray_copy_def Let_def column_of_def div_column_def scenario_state_def
      scenario_info_def scenario_isect_def scenario_state1_def row_range_def column_range_def
      tile_range_def clamp_def py_int_def np_clip_def)

lemma scenario_get_chunks:
  "get_chunks scenario_state1 scenario_isect sid = Inr ([0, 1, 2, 3], scenario_state2 sid)"
  by (simp add: get_chunks_def Let_def scenario_state_def
      scenario_info_def scenario_isect_def scenario_state1_def scenario_state2_def scenario_chunk_def
      range_elems_def upto_rec1 visit_tile_def py_index_def scaled_size_def eval_nat_numeral)

section \<open>Chunk retrieval and the tile grid\<close>

lemma grid_le_refl: "grid_le g g"
  by (simp add: grid_le_def)

lemma grid_le_trans: "grid_le g1 g2 \<Longrightarrow> grid_le g2 g3 \<Longrightarrow> grid_le g1 g3"
  by (auto simp: grid_le_def)

lemma py_index_bound: "py_index xs i = Inr n \<Longrightarrow> n < length xs"
  by (auto simp: py_index_def Let_def split: if_splits)

lemma py_index_length: "length ys = length xs \<Longrightarrow> py_index ys i = py_index xs i"
  by (simp add: py_index_def)

lemma get_tile_grid_le:
  assumes "grid_le g g'" "get_tile g r c = Inr (Chunk k)"
  shows "get_tile g' r c = Inr (Chunk k)"
proof -
  from assms(2) obtain i j where i: "py_index g r = Inr i" and j: "py_index (g ! i) c = Inr j"
    and t: "g ! i ! j = Chunk k"
    by (auto simp: get_tile_def split: sum.splits)
  have il: "i < length g" using i by (rule py_index_bound)
  have jl: "j < length (g ! i)" using j by (rule py_index_bound)
  have "py_index g' r = Inr i" using assms(1) i py_index_length[of g' g r] by (simp add: grid_le_def)
  moreover have "py_index (g' ! i) c = Inr j"
    using assms(1) il j py_index_length[of "g' ! i" "g ! i" c] by (simp add: grid_le_def)
  moreover have "g' ! i ! j = Chunk k" using assms(1) il jl t by (simp add: grid_le_def)
  ultimately show ?thesis by (simp add: get_tile_def)
qed

lemma visit_tile_chunk:
  "get_tile (tiles (level st)) r c = Inr (Chunk k) \<Longrightarrow> visit_tile st sid linfo r c x y = Inr (k, st)"
  by (auto simp: get_tile_def visit_tile_def split: sum.splits)

lemma grid_le_update:
  assumes "i < length g" "j < length (g ! i)" "g ! i ! j = Raw d"
  shows "grid_le g (g[i := (g ! i)[j := Chunk k]])"
  using assms by (auto simp: grid_le_def nth_list_update)

lemma get_tile_update:
  assumes "py_index g r = Inr i" "py_index (g ! i) c = Inr j"
  shows "get_tile (g[i := (g ! i)[j := t]]) r c = Inr t"
proof -
  have il: "i < length g" using assms(1) by (rule py_index_bound)
  have jl: "j < length (g ! i)" using assms(2) by (rule py_index_bound)
  have a: "py_index (g[i := (g ! i)[j := t]]) r = Inr i"
    using assms(1) py_index_length[of "g[i := (g ! i)[j := t]]" g r] by simp
  have b: "py_index ((g ! i)[j := t]) c = Inr j"
    using assms(2) py_index_length[of "(g ! i)[j := t]" "g ! i" c] by simp
  show ?thesis using a b il jl by (simp add: get_tile_def)
qed

lemma visit_tile_cases:
  assumes "visit_tile st sid linfo r c x y = Inr (k, st')"
  obtains (present) "get_tile (tiles (level st)) r c = Inr (Chunk k)" "st' = st"
  | (fresh) i j d where "py_index (tiles (level st)) r = Inr i"
      "py_index (tiles (level st) ! i) c = Inr j" "tiles (level st) ! i ! j = Raw d"
      "k = length (chunk_objs st)"
      "st' = st\<lparr>chunk_objs := chunk_objs st @
               [\<lparr>data = d,
                 location = \<lparr>loc_slice_id = sid, loc_level_index = level_index linfo,
                             loc_row = r, loc_col = c\<rparr>,
                 geom = \<lparr>pos = (x, y), geom_scale = (scale linfo, scale linfo)\<rparr>\<rparr>],
             level := (level st)\<lparr>tiles := (tiles (level st))
                 [i := (tiles (level st) ! i)[j := Chunk (length (chunk_objs st))]]\<rparr>\<rparr>"
proof -
  let ?g = "tiles (level st)"
  from assms obtain i j where i: "py_index ?g r = Inr i" and j: "py_index (?g ! i) c = Inr j"
    by (auto simp: visit_tile_def Let_def split: sum.splits)
  show thesis
  proof (cases "?g ! i ! j")
    case (Chunk k')
    then have "get_tile ?g r c = Inr (Chunk k)" "st' = st"
      using assms i j by (auto simp: visit_tile_def Let_def get_tile_def)
    then show thesis by (rule present)
  next
    case (Raw d)
    show thesis
      by (rule fresh[OF i j Raw]) (use assms i j Raw in \<open>auto simp: visit_tile_def Let_def\<close>)
  qed
qed

lemma visit_tile_result:
  assumes "visit_tile st sid linfo r c x y = Inr (k, st')"
  shows "grid_le (tiles (level st)) (tiles (level st'))"
    and "get_tile (tiles (level st')) r c = Inr (Chunk k)"
    and "info (level st') = info (level st)"
    and "arrays st' = arrays st"
    and "\<exists>new. chunk_objs st' = chunk_objs st @ new"
proof -
  show "grid_le (tiles (level st)) (tiles (level st'))"
    using assms
  proof (cases rule: visit_tile_cases)
    case present
    then show ?thesis by (simp add: grid_le_refl)
  next
    case (fresh i j d)
    then show ?thesis
      using grid_le_update[OF py_index_bound[OF fresh(1)] py_index_bound[OF fresh(2)] fresh(3)]
      by simp
  qed
  show "get_tile (tiles (level st')) r c = Inr (Chunk k)"
    using assms
  proof (cases rule: visit_tile_cases)
    case present
    then show ?thesis by simp
  next
    case (fresh i j d)
    then show ?thesis using get_tile_update[OF fresh(1) fresh(2)] by simp
  qed
  show "info (level st') = info (level st)"
    using assms by (cases rule: visit_tile_cases) simp_all
  show "arrays st' = arrays st"
    using assms by (cases rule: visit_tile_cases) simp_all
  show "\<exists>new. chunk_objs st' = chunk_objs st @ new"
    using assms by (cases rule: visit_tile_cases) simp_all
qed

lemma col_loop_result:
  assumes "col_loop st sid linfo r cs x y = Inr (ks, st1)"
  shows "grid_le (tiles (level st)) (tiles (level st1))
       \<and> info (level st1) = info (level st) \<and> arrays st1 = arrays st
       \<and> (\<exists>new. chunk_objs st1 = chunk_objs st @ new)
       \<and> length ks = length cs
       \<and> (\<forall>c \<in> set cs. \<exists>k \<in> set ks. get_tile (tiles (level st1)) r c = Inr (Chunk k))"
  using assms
proof (induction cs arbitrary: st x ks)
  case Nil
  then show ?case by (simp add: grid_le_refl)
next
  case (Cons c cs)
  from Cons.prems obtain k st' ks' where
    v: "visit_tile st sid linfo r c x y = Inr (k, st')" and
    l: "col_loop st' sid linfo r cs (x + scaled_size linfo) y = Inr (ks', st1)" and
    ks: "ks = k # ks'"
    by (auto split: sum.splits)
  note vr = visit_tile_result[OF v]
  note ih = Cons.IH[OF l]
  have g: "grid_le (tiles (level st)) (tiles (level st1))"
    using vr(1) ih grid_le_trans by blast
  have t: "get_tile (tiles (level st1)) r c = Inr (Chunk k)"
    using get_tile_grid_le[OF _ vr(2)] ih by blast
  have n: "\<exists>new. chunk_objs st1 = chunk_objs st @ new"
    using vr(5) ih by auto
  show ?case using g t n vr(3,4) ih ks by auto
qed

lemma col_loop_replay:
  assumes "col_loop st sid linfo r cs x y = Inr (ks, st1)"
    and "grid_le (tiles (level st1)) (tiles (level stF))"
  shows "col_loop stF sid linfo r cs x' y' = Inr (ks, stF)"
  using assms
proof (induction cs arbitrary: st x x' ks)
  case Nil
  then show ?case by simp
next
  case (Cons c cs)
  from Cons.prems(1) obtain k st' ks' where
    v: "visit_tile st sid linfo r c x y = Inr (k, st')" and
    l: "col_loop st' sid linfo r cs (x + scaled_size linfo) y = Inr (ks', st1)" and
    ks: "ks = k # ks'"
    by (auto split: sum.splits)
  have "grid_le (tiles (level st')) (tiles (level st1))"
    using col_loop_result[OF l] by blast
  then have "grid_le (tiles (level st')) (tiles (level stF))"
    using Cons.prems(2) grid_le_trans by blast
  then have "get_tile (tiles (level stF)) r c = Inr (Chunk k)"
    using get_tile_grid_le visit_tile_result(2)[OF v] by blast
  then have v': "visit_tile stF sid linfo r c x' y' = Inr (k, stF)"
    by (rule visit_tile_chunk)
  have "col_loop stF sid linfo r cs (x' + scaled_size linfo) y' = Inr (ks', stF)"
    by (rule Cons.IH[OF l Cons.prems(2)])
  then show ?case using v' ks by simp
qed

lemma row_loop_result:
  assumes "row_loop st sid linfo cr rs y = Inr (ks, st1)"
  shows "grid_le (tiles (level st)) (tiles (level st1))
       \<and> info (level st1) = info (level st) \<and> arrays st1 = arrays st
       \<and> (\<exists>new. chunk_objs st1 = chunk_objs st @ new)
       \<and> length ks = length rs * length (range_elems cr)
       \<and> (\<forall>r \<in> set rs. \<forall>c \<in> set (range_elems cr).
             \<exists>k \<in> set ks. get_tile (tiles (level st1)) r c = Inr (Chunk k))"
  using assms
proof (induction rs arbitrary: st y ks)
  case Nil
  then show ?case by (simp add: grid_le_refl)
next
  case (Cons r rs)
  from Cons.prems obtain ka st' kb where
    c: "col_loop st sid linfo r (range_elems cr) (of_int (start cr) * scaled_size linfo) y
          = Inr (ka, st')" and
    l: "row_loop st' sid linfo cr rs (y + scaled_size linfo) = Inr (kb, st1)" and
    ks: "ks = ka @ kb"
    by (auto simp: Let_def split: sum.splits)
  note cr = col_loop_result[OF c]
  note ih = Cons.IH[OF l]
  have g': "grid_le (tiles (level st')) (tiles (level st1))" using ih by blast
  have g: "grid_le (tiles (level st)) (tiles (level st1))"
    using cr g' grid_le_trans by blast
  have n: "\<exists>new. chunk_objs st1 = chunk_objs st @ new"
    using cr ih by auto
  have len: "length ks = length (r # rs) * length (range_elems cr)"
    using cr ih ks by simp
  have first: "\<forall>c \<in> set (range_elems cr). \<exists>k \<in> set ks. get_tile (tiles (level st1)) r c = Inr (Chunk k)"
  proof
    fix c assume "c \<in> set (range_elems cr)"
    then obtain k where "k \<in> set ka" "get_tile (tiles (level st')) r c = Inr (Chunk k)"
      using cr by blast
    then show "\<exists>k \<in> set ks. get_tile (tiles (level st1)) r c = Inr (Chunk k)"
      using get_tile_grid_le[OF g'] ks by auto
  qed
  have rest: "\<forall>r' \<in> set rs. \<forall>c \<in> set (range_elems cr).
                \<exists>k \<in> set ks. get_tile (tiles (level st1)) r' c = Inr (Chunk k)"
    using ih ks by auto
  have i: "info (level st1) = info (level st)" "arrays st1 = arrays st"
    using cr ih by auto
  show ?case using g i n len first rest by auto
qed

lemma row_loop_replay:
  assumes "row_loop st sid linfo cr rs y = Inr (ks, st1)"
    and "grid_le (tiles (level st1)) (tiles (level stF))"
  shows "row_loop stF sid linfo cr rs y' = Inr (ks, stF)"
  using assms
proof (induction rs arbitrary: st y y' ks)
  case Nil
  then show ?case by simp
next
  case (Cons r rs)
  from Cons.prems(1) obtain ka st' kb where
    c: "col_loop st sid linfo r (range_elems cr) (of_int (start cr) * scaled_size linfo) y
          = Inr (ka, st')" and
    l: "row_loop st' sid linfo cr rs (y + scaled_size linfo) = Inr (kb, st1)" and
    ks: "ks = ka @ kb"
    by (auto simp: Let_def split: sum.splits)
  have "grid_le (tiles (level st')) (tiles (level st1))"
    using row_loop_result[OF l] by blast
  then have "grid_le (tiles (level st')) (tiles (level stF))"
    using Cons.prems(2) grid_le_trans by blast
  then have c': "col_loop stF sid linfo r (range_elems cr) (of_int (start cr) * scaled_size linfo) y'
      = Inr (ka, stF)"
    by (rule col_loop_replay[OF c])
  have "row_loop stF sid linfo cr rs (y' + scaled_size linfo) = Inr (kb, stF)"
    by (rule Cons.IH[OF l Cons.prems(2)])
  then show ?case using c' ks by (simp add: Let_def)
qed

lemma get_chunks_result:
  assumes "get_chunks st self sid = Inr (ks, st1)"
  shows "grid_le (tiles (level st)) (tiles (level st1))"
    and "info (level st1) = info (level st)" and "arrays st1 = arrays st"
    and "\<exists>new. chunk_objs st1 = chunk_objs st @ new"
    and "length ks = length (range_elems (u_row_range self)) * length (range_elems (u_col_range self))"
    and "\<forall>r \<in> set (range_elems (u_row_range self)). \<forall>c \<in> set (range_elems (u_col_range self)).
             \<exists>k \<in> set ks. get_tile (tiles (level st1)) r c = Inr (Chunk k)"
  using row_loop_result[OF assms[unfolded get_chunks_def Let_def]] by blast+

lemma get_chunks_replay:
  assumes "get_chunks st self sid = Inr (ks, st1)"
  shows "get_chunks st1 self sid = Inr (ks, st1)"
proof -
  have "row_loop st1 sid (info (level st)) (u_col_range self) (range_elems (u_row_range self))
          (of_int (start (u_row_range self)) * scaled_size (info (level st))) = Inr (ks, st1)"
    by (rule row_loop_replay[OF assms[unfolded get_chunks_def Let_def] grid_le_refl])
  then show ?thesis
    using get_chunks_result(2)[OF assms] by (simp add: get_chunks_def Let_def)
qed

text \<open>
  Claim C1. A second \<open>get_chunks\<close> with the same intersection and slice id returns the
  same chunk addresses as the first and leaves the whole state as the first call left it:
  no chunk object is built again. After the first call every cell of the computed ranges
  holds one of the returned chunks. A cell that holds a chunk before a call holds the same
  chunk after it, so no cell goes back to raw data or changes its chunk, and the chunk
  objects allocated before the call are kept as they were.
\<close>

theorem get_chunks_materialize_once:
  assumes "get_chunks st self slice_id = Inr (ks, st1)"
  shows "get_chunks st1 self slice_id = Inr (ks, st1)
       \<and> (\<forall>r \<in> set (range_elems (u_row_range self)). \<forall>c \<in> set (range_elems (u_col_range self)).
             \<exists>k \<in> set ks. get_tile (tiles (level st1)) r c = Inr (Chunk k))
       \<and> (\<forall>r c k. get_tile (tiles (level st)) r c = Inr (Chunk k)
                     \<longrightarrow> get_tile (tiles (level st1)) r c = Inr (Chunk k))
       \<and> (\<forall>k < length (chunk_objs st). chunk_objs st1 ! k = chunk_objs st ! k)"
proof -
  note r = get_chunks_result[OF assms]
  have a: "get_chunks st1 self slice_id = Inr (ks, st1)"
    by (rule get_chunks_replay[OF assms])
  have c: "\<forall>r c k. get_tile (tiles (level st)) r c = Inr (Chunk k)
                     \<longrightarrow> get_tile (tiles (level st1)) r c = Inr (Chunk k)"
    using get_tile_grid_le[OF r(1)] by blast
  have d: "\<forall>k < length (chunk_objs st). chunk_objs st1 ! k = chunk_objs st ! k"
    using r(4) by (auto simp: nth_append)
  show ?thesis using a r(6) c d by blast
qed

theorem get_chunks_materialize_once_witness:
  "get_chunks scenario_state1 scenario_isect 7 = Inr ([0, 1, 2, 3], scenario_state2 7)
   \<and> get_chunks (scenario_state2 7) scenario_isect 7 = Inr ([0, 1, 2, 3], scenario_state2 7)"
  using get_chunks_materialize_once[OF scenario_get_chunks[of 7]] scenario_get_chunks[of 7]
  by blast

section \<open>The constructor\<close>

lemma init_eq:
  assumes "fst (base_shape (image_config (info (level st)))) \<noteq> 0"
    "snd (base_shape (image_config (info (level st)))) \<noteq> 0"
    "scale (info (level st)) \<noteq> 0"
  shows "init st a =
    (let linfo = info (level st); arr = arrays st ! a; s = scale linfo;
         base = base_shape (image_config linfo); n = length (arrays st) in
     case row_range linfo (fst (fst arr) / s, fst (snd arr) / s) of
       Inl e \<Rightarrow> Inl e
     | Inr rr \<Rightarrow>
        (case column_range linfo (snd (fst arr) / s, snd (snd arr) / s) of
           Inl e \<Rightarrow> Inl e
         | Inr cr \<Rightarrow>
            Inr (\<lparr>corners_2d = n, rows = Column n 0, cols = Column n 1,
                  normalized_range =
                    (np_clip (fst (fst arr) / of_int (fst base), fst (snd arr) / of_int (fst base)) 0 1,
                     np_clip (snd (fst arr) / of_int (snd base), snd (snd arr) / of_int (snd base)) 0 1),
                  u_row_range = rr, u_col_range = cr\<rparr>,
                 st\<lparr>arrays := arrays st @ [scaled_corners s arr]\<rparr>)))"
  using assms
  by (simp add: init_def ndarray_copy_def Let_def column_of_def div_column_def scaled_corners_def
      split: sum.splits)

lemma init_nonzero:
  assumes "init st a = Inr (self, st')"
  shows "fst (base_shape (image_config (info (level st)))) \<noteq> 0"
    and "snd (base_shape (image_config (info (level st)))) \<noteq> 0"
    and "scale (info (level st)) \<noteq> 0"
  using assms by (auto simp: init_def ndarray_copy_def Let_def split: if_splits)

lemma init_result:
  assumes "init st a = Inr (self, st')"
  shows "corners_2d self = length (arrays st)"
    and "rows self = Column (length (arrays st)) 0"
    and "cols self = Column (length (arrays st)) 1"
    and "normalized_range self =
      (np_clip (fst (fst (arrays st ! a)) / of_int (fst (base_shape (image_config (info (level st))))),
                fst (snd (arrays st ! a)) / of_int (fst (base_shape (image_config (info (level st)))))) 0 1,
       np_clip (snd (fst (arrays st ! a)) / of_int (snd (base_shape (image_config (info (level st))))),
                snd (snd (arrays st ! a)) / of_int (snd (base_shape (image_config (info (level st)))))) 0 1)"
    and "row_range (info (level st))
           (fst (fst (arrays st ! a)) / scale (info (level st)),
            fst (snd (arrays st ! a)) / scale (info (level st))) = Inr (u_row_range self)"
    and "column_range (info (level st))
           (snd (fst (arrays st ! a)) / scale (info (level st)),
            snd (snd (arrays st ! a)) / scale (info (level st))) = Inr (u_col_range self)"
    and "st' = st\<lparr>arrays := arrays st @ [scaled_corners (scale (info (level st))) (arrays st ! a)]\<rparr>"
  using assms unfolding init_eq[OF init_nonzero[OF assms]]
  by (auto simp: Let_def split: sum.splits)


lemma init_views:
  assumes "init st a = Inr (self, st')"
  shows "arrays st' ! corners_2d self = scaled_corners (scale (info (level st))) (arrays st ! a)"
    and "read_view st' (rows self) =
           (fst (fst (arrays st ! a)) / scale (info (level st)),
            fst (snd (arrays st ! a)) / scale (info (level st)))"
    and "read_view st' (cols self) =
           (snd (fst (arrays st ! a)) / scale (info (level st)),
            snd (snd (arrays st ! a)) / scale (info (level st)))"
    and "info (level st') = info (level st)"
    and "tiles (level st') = tiles (level st)"
    and "chunk_objs st' = chunk_objs st"
    and "a < length (arrays st) \<Longrightarrow> arrays st' ! a = arrays st ! a"
  using init_result[OF assms]
  by (simp_all add: column_of_def scaled_corners_def nth_append)


section \<open>Success of chunk retrieval on a well-formed grid\<close>






lemma run_calls_arrays:
  assumes "run_calls st self calls = Inr st1"
  shows "arrays st1 = arrays st"
  using assms
proof (induction calls arbitrary: st)
  case Nil
  then show ?case by simp
next
  case (Cons cl calls)
  show ?case
  proof (cases cl)
    case (IsVisible r c)
    then show ?thesis using Cons by (simp add: Let_def)
  next
    case (GetChunks sid)
    with Cons.prems obtain ks st' where g: "get_chunks st self sid = Inr (ks, st')"
      and r: "run_calls st' self calls = Inr st1"
      by (auto split: sum.splits)
    show ?thesis using Cons.IH[OF r] get_chunks_result(3)[OF g] by simp
  qed
qed

lemma scenario_run_calls:
  "run_calls scenario_state1 scenario_isect [IsVisible 0 0, GetChunks 7, IsVisible 2 2, GetChunks 7]
     = Inr (scenario_state2 7)"
proof -
  have a: "get_chunks scenario_state1 scenario_isect 7 = Inr ([0, 1, 2, 3], scenario_state2 7)"
    by (rule scenario_get_chunks)
  have b: "get_chunks (scenario_state2 7) scenario_isect 7 = Inr ([0, 1, 2, 3], scenario_state2 7)"
    by (rule get_chunks_replay[OF a])
  show ?thesis by (simp add: Let_def a b)
qed

section \<open>Properties of the intersection\<close>



text \<open>
  Claim C6. For a constructed intersection the stored ranges are the row and column ranges
  of its level-scaled spans, and \<open>is_visible row col\<close> holds exactly when \<open>row\<close> is an index
  of the row range and \<open>col\<close> an index of the column range. It is false one below the start
  and at the stop of either range; where both ranges are non-empty it is true at their
  starts and at their last indices. A call of it leaves the state as it is.
\<close>

theorem is_visible_iff:
  assumes "init st a = Inr (self, st')"
  shows "row_range (info (level st')) (read_view st' (rows self)) = Inr (u_row_range self)
    \<and> column_range (info (level st')) (read_view st' (cols self)) = Inr (u_col_range self)
    \<and> (\<forall>r c. is_visible self r c
           = (r \<in> set (range_elems (u_row_range self)) \<and> c \<in> set (range_elems (u_col_range self))))
    \<and> (\<forall>r c. \<not> is_visible self (start (u_row_range self) - 1) c
             \<and> \<not> is_visible self (stop (u_row_range self)) c
             \<and> \<not> is_visible self r (start (u_col_range self) - 1)
             \<and> \<not> is_visible self r (stop (u_col_range self)))
    \<and> (start (u_row_range self) < stop (u_row_range self)
          \<and> start (u_col_range self) < stop (u_col_range self)
        \<longrightarrow> is_visible self (start (u_row_range self)) (start (u_col_range self))
          \<and> is_visible self (stop (u_row_range self) - 1) (stop (u_col_range self) - 1))
    \<and> (\<forall>s r c. run_calls s self [IsVisible r c] = Inr s)"
proof -
  have a: "row_range (info (level st')) (read_view st' (rows self)) = Inr (u_row_range self)"
    using init_result(5)[OF assms] init_views(2,4)[OF assms] by simp
  have b: "column_range (info (level st')) (read_view st' (cols self)) = Inr (u_col_range self)"
    using init_result(6)[OF assms] init_views(3,4)[OF assms] by simp
  have c: "\<forall>r c. is_visible self r c
           = (r \<in> set (range_elems (u_row_range self)) \<and> c \<in> set (range_elems (u_col_range self)))"
    by (auto simp: is_visible_def inside_def range_elems_def)
  have d: "\<forall>r c. \<not> is_visible self (start (u_row_range self) - 1) c
             \<and> \<not> is_visible self (stop (u_row_range self)) c
             \<and> \<not> is_visible self r (start (u_col_range self) - 1)
             \<and> \<not> is_visible self r (stop (u_col_range self))"
    by (simp add: is_visible_def inside_def)
  have e: "start (u_row_range self) < stop (u_row_range self)
          \<and> start (u_col_range self) < stop (u_col_range self)
        \<longrightarrow> is_visible self (start (u_row_range self)) (start (u_col_range self))
          \<and> is_visible self (stop (u_row_range self) - 1) (stop (u_col_range self) - 1)"
    by (simp add: is_visible_def inside_def)
  have f: "\<forall>s r c. run_calls s self [IsVisible r c] = Inr s"
    by (simp add: Let_def)
  show ?thesis using a b c d e f by blast
qed

theorem is_visible_iff_witness:
  "init scenario_state 0 = Inr (scenario_isect, scenario_state1)
   \<and> is_visible scenario_isect 0 0 \<and> is_visible scenario_isect 1 1
   \<and> \<not> is_visible scenario_isect (- 1) 0 \<and> \<not> is_visible scenario_isect 2 0
   \<and> \<not> is_visible scenario_isect 0 (- 1) \<and> \<not> is_visible scenario_isect 0 2"
proof -
  have v: "is_visible scenario_isect r c
      = (r \<in> set (range_elems (u_row_range scenario_isect))
         \<and> c \<in> set (range_elems (u_col_range scenario_isect)))" for r c
    using is_visible_iff[OF scenario_init] by blast
  have rg: "range_elems (u_row_range scenario_isect) = [0, 1]"
    "range_elems (u_col_range scenario_isect) = [0, 1]"
    by (simp_all add: scenario_isect_def range_elems_def upto_rec1)
  have "is_visible scenario_isect 0 0" "is_visible scenario_isect 1 1"
    "\<not> is_visible scenario_isect (- 1) 0" "\<not> is_visible scenario_isect 2 0"
    "\<not> is_visible scenario_isect 0 (- 1)" "\<not> is_visible scenario_isect 0 2"
    unfolding v rg by simp_all
  then show ?thesis using scenario_init by blast
qed

text \<open>
  Claim C7. In the scenario the constructor yields the ranges \<open>[0, 2)\<close> for rows and for
  columns, and \<open>get_chunks\<close> returns four chunks, built in this order for the cells
  \<open>(0, 0)\<close>, \<open>(0, 1)\<close>, \<open>(1, 0)\<close> and \<open>(1, 1)\<close>, which then hold them. The scaled tile size is
  200 and the positions \<open>(x, y)\<close> of the chunks are \<open>(0, 0)\<close>, \<open>(200, 0)\<close>, \<open>(0, 200)\<close>
  and \<open>(200, 200)\<close>: every component is 0 or 1 times 200.
\<close>

theorem scenario_four_chunks:
  "init scenario_state 0 = Inr (scenario_isect, scenario_state1)
   \<and> u_row_range scenario_isect = \<lparr>start = 0, stop = 2\<rparr>
   \<and> u_col_range scenario_isect = \<lparr>start = 0, stop = 2\<rparr>
   \<and> get_chunks scenario_state1 scenario_isect sid = Inr ([0, 1, 2, 3], scenario_state2 sid)
   \<and> length [0::nat, 1, 2, 3] = 4
   \<and> map (\<lambda>k. (loc_row (location (chunk_objs (scenario_state2 sid) ! k)),
                 loc_col (location (chunk_objs (scenario_state2 sid) ! k)))) [0, 1, 2, 3]
       = [(0, 0), (0, 1), (1, 0), (1, 1)]
   \<and> map (\<lambda>k. pos (geom (chunk_objs (scenario_state2 sid) ! k))) [0, 1, 2, 3]
       = [(0 * 200, 0 * 200), (1 * 200, 0 * 200), (0 * 200, 1 * 200), (1 * 200, 1 * 200)]
   \<and> scaled_size scenario_info = 200
   \<and> get_tile (tiles (level (scenario_state2 sid))) 0 0 = Inr (Chunk 0)
   \<and> get_tile (tiles (level (scenario_state2 sid))) 0 1 = Inr (Chunk 1)
   \<and> get_tile (tiles (level (scenario_state2 sid))) 1 0 = Inr (Chunk 2)
   \<and> get_tile (tiles (level (scenario_state2 sid))) 1 1 = Inr (Chunk 3)"
proof -
  have a: "u_row_range scenario_isect = \<lparr>start = 0, stop = 2\<rparr>"
    "u_col_range scenario_isect = \<lparr>start = 0, stop = 2\<rparr>"
    by (simp_all add: scenario_isect_def)
  have b: "map (\<lambda>k. (loc_row (location (chunk_objs (scenario_state2 sid) ! k)),
                 loc_col (location (chunk_objs (scenario_state2 sid) ! k)))) [0, 1, 2, 3]
       = [(0, 0), (0, 1), (1, 0), (1, 1)]"
    by (simp add: scenario_state2_def scenario_chunk_def)
  have c: "map (\<lambda>k. pos (geom (chunk_objs (scenario_state2 sid) ! k))) [0, 1, 2, 3]
       = [(0 * 200, 0 * 200), (1 * 200, 0 * 200), (0 * 200, 1 * 200), (1 * 200, 1 * 200)]"
    by (simp add: scenario_state2_def scenario_chunk_def)
  have d: "scaled_size scenario_info = 200"
    by (simp add: scaled_size_def scenario_info_def)
  have e: "get_tile (tiles (level (scenario_state2 sid))) 0 0 = Inr (Chunk 0)"
    "get_tile (tiles (level (scenario_state2 sid))) 0 1 = Inr (Chunk 1)"
    "get_tile (tiles (level (scenario_state2 sid))) 1 0 = Inr (Chunk 2)"
    "get_tile (tiles (level (scenario_state2 sid))) 1 1 = Inr (Chunk 3)"
    by (simp_all add: scenario_state2_def get_tile_def py_index_def)
  show ?thesis using scenario_init scenario_get_chunks a b c d e by simp
qed

text \<open>
  Claim C8, as stated, fails: in the scenario the array stored in the intersection holds
  \<open>[[0, 0], [125, 125]]\<close> after construction, not the caller's \<open>[[0, 0], [250, 250]]\<close>.
\<close>

theorem stored_corners_counterexample:
  "init scenario_state 0 = Inr (scenario_isect, scenario_state1)
   \<and> arrays scenario_state ! 0 = ((0, 0), (250, 250))
   \<and> arrays scenario_state1 ! corners_2d scenario_isect = ((0, 0), (125, 125))
   \<and> arrays scenario_state1 ! corners_2d scenario_isect \<noteq> arrays scenario_state ! 0"
  using scenario_init
  by (simp add: scenario_state_def scenario_state1_def scenario_isect_def)

text \<open>
  Claim C8, amended. After construction the intersection owns a fresh copy of the input
  corners; \<open>rows\<close> and \<open>cols\<close> are views of column 0 and column 1 of that copy, and the
  division by the level's scale is done in place through them. So \<open>rows\<close> and \<open>cols\<close> hold
  the spans divided by the scale, and the stored \<open>corners_2d\<close> holds the caller's corner
  values divided by the scale.
\<close>

theorem stored_corners_scaled:
  assumes "init st a = Inr (self, st')"
  shows "corners_2d self = length (arrays st)
    \<and> rows self = Column (corners_2d self) 0 \<and> cols self = Column (corners_2d self) 1
    \<and> arrays st' ! corners_2d self = scaled_corners (scale (info (level st))) (arrays st ! a)
    \<and> read_view st' (rows self) =
         (fst (fst (arrays st ! a)) / scale (info (level st)),
          fst (snd (arrays st ! a)) / scale (info (level st)))
    \<and> read_view st' (cols self) =
         (snd (fst (arrays st ! a)) / scale (info (level st)),
          snd (snd (arrays st ! a)) / scale (info (level st)))"
  using init_result(1-3)[OF assms] init_views(1-3)[OF assms] by simp

theorem stored_corners_scaled_witness:
  "init scenario_state 0 = Inr (scenario_isect, scenario_state1)
   \<and> arrays scenario_state1 ! corners_2d scenario_isect = ((0, 0), (125, 125))
   \<and> read_view scenario_state1 (rows scenario_isect) = (0, 125)
   \<and> read_view scenario_state1 (cols scenario_isect) = (0, 125)"
proof -
  have s: "scale (info (level scenario_state)) = 2" "arrays scenario_state ! 0 = ((0, 0), (250, 250))"
    by (simp_all add: scenario_state_def scenario_info_def)
  have "arrays scenario_state1 ! corners_2d scenario_isect
      = scaled_corners (scale (info (level scenario_state))) (arrays scenario_state ! 0)"
    using stored_corners_scaled[OF scenario_init] by blast
  then have a: "arrays scenario_state1 ! corners_2d scenario_isect = ((0, 0), (125, 125))"
    unfolding s by (simp add: scaled_corners_def)
  have "read_view scenario_state1 (rows scenario_isect) =
         (fst (fst (arrays scenario_state ! 0)) / scale (info (level scenario_state)),
          fst (snd (arrays scenario_state ! 0)) / scale (info (level scenario_state)))"
    using stored_corners_scaled[OF scenario_init] by blast
  then have b: "read_view scenario_state1 (rows scenario_isect) = (0, 125)"
    unfolding s by simp
  have "read_view scenario_state1 (cols scenario_isect) =
         (snd (fst (arrays scenario_state ! 0)) / scale (info (level scenario_state)),
          snd (snd (arrays scenario_state ! 0)) / scale (info (level scenario_state)))"
    using stored_corners_scaled[OF scenario_init] by blast
  then have c: "read_view scenario_state1 (cols scenario_isect) = (0, 125)"
    unfolding s by simp
  show ?thesis using scenario_init a b c by blast
qed

text \<open>
  Claim C9. The constructor works on a copy at a fresh address: the caller's array holds
  after construction, and after any sequence of \<open>is_visible\<close> and \<open>get_chunks\<close> calls that
  follows it, the values it held before.
\<close>

theorem caller_corners_unchanged:
  assumes "a < length (arrays st)" "init st a = Inr (self, st')"
    "run_calls st' self calls = Inr st''"
  shows "arrays st' ! a = arrays st ! a \<and> arrays st'' ! a = arrays st ! a \<and> corners_2d self \<noteq> a"
  using init_views(7)[OF assms(2,1)] run_calls_arrays[OF assms(3)] init_result(1)[OF assms(2)] assms(1)
  by simp

theorem caller_corners_unchanged_witness:
  "0 < length (arrays scenario_state)
   \<and> init scenario_state 0 = Inr (scenario_isect, scenario_state1)
   \<and> run_calls scenario_state1 scenario_isect [IsVisible 0 0, GetChunks 7, IsVisible 2 2, GetChunks 7]
       = Inr (scenario_state2 7)
   \<and> arrays (scenario_state2 7) ! 0 = ((0, 0), (250, 250))
   \<and> arrays scenario_state ! 0 = ((0, 0), (250, 250))"
proof -
  have h: "0 < length (arrays scenario_state)" by (simp add: scenario_state_def)
  have e: "arrays scenario_state ! 0 = ((0, 0), (250, 250))"
    by (simp add: scenario_state_def)
  have "arrays (scenario_state2 7) ! 0 = arrays scenario_state ! 0"
    using caller_corners_unchanged[OF h scenario_init scenario_run_calls] by blast
  then have "arrays (scenario_state2 7) ! 0 = ((0, 0), (250, 250))"
    unfolding e .
  then show ?thesis using h e scenario_init scenario_run_calls by blast
qed



end
